theory Spec2Isabelle
  imports Main
begin

text \<open>
  The behaviour layer of the Surya Plaza Hotel site comes in three scripts: script.js
  version 3.0 and, after it in the same file, script.js version 2.1, and main.js, the
  consolidated script. They are modelled side by side. Every event handler is a
  function from the state it reads and writes to the state it leaves; names are
  those of the scripts, with the suffix \<open>_v21\<close> for version 2.1 and the prefix
  \<open>page_\<close> for the gallery of main.js (\<open>initGalleryPage\<close>) where a name occurs twice.
\<close>

section \<open>Theme Preference Manager\<close>

text \<open>
  The theme code touches three pieces of state: the \<open>data-theme\<close> attribute of the
  root element, the \<open>theme\<close> key of \<open>localStorage\<close> and the live value of the
  media query \<open>(prefers-color-scheme: dark)\<close>. An attribute or a key that is
  not set reads as \<open>null\<close>, modelled by \<open>None\<close>. Writes to \<open>localStorage\<close>
  are taken to succeed.
\<close>

record theme_state =
  data_theme :: "string option"
  stored_theme :: "string option"
  prefers_dark :: bool

text \<open>JavaScript truthiness of a value that is \<open>null\<close> or a string.\<close>

definition truthy :: "string option \<Rightarrow> bool" where
  "truthy v = (case v of None \<Rightarrow> False | Some t \<Rightarrow> t \<noteq> [])"

definition os_theme :: "bool \<Rightarrow> string" where
  "os_theme dark = (if dark then ''dark'' else ''light'')"

subsection \<open>main.js: \<open>initThemeManager\<close>\<close>

definition applyTheme :: "string \<Rightarrow> theme_state \<Rightarrow> theme_state" where
  "applyTheme theme s = s\<lparr>data_theme := Some theme, stored_theme := Some theme\<rparr>"

definition getInitialTheme :: "theme_state \<Rightarrow> string" where
  "getInitialTheme s =
     (case stored_theme s of
        None \<Rightarrow> os_theme (prefers_dark s)
      | Some savedTheme \<Rightarrow>
          if savedTheme \<noteq> [] then savedTheme else os_theme (prefers_dark s))"

text \<open>
  \<open>initThemeManager\<close> returns at once when the page has no \<open>#theme-toggle\<close>;
  otherwise it applies the initial theme and installs the two listeners below.
\<close>

definition initThemeManager :: "bool \<Rightarrow> theme_state \<Rightarrow> theme_state" where
  "initThemeManager has_toggle s =
     (if has_toggle then applyTheme (getInitialTheme s) s else s)"

definition flip_theme :: "string option \<Rightarrow> string" where
  "flip_theme currentTheme = (if currentTheme = Some ''dark'' then ''light'' else ''dark'')"

definition themeToggle_click :: "theme_state \<Rightarrow> theme_state" where
  "themeToggle_click s = applyTheme (flip_theme (data_theme s)) s"

text \<open>
  The media query changes to \<open>matches\<close> and its \<open>change\<close> listener runs.
\<close>

definition systemPrefersDark_change :: "bool \<Rightarrow> theme_state \<Rightarrow> theme_state" where
  "systemPrefersDark_change matches s =
     (let s1 = s\<lparr>prefers_dark := matches\<rparr>
      in if \<not> truthy (stored_theme s1) then applyTheme (os_theme matches) s1 else s1)"

subsection \<open>script.js: \<open>initThemeToggle\<close>\<close>

definition initThemeToggle :: "theme_state \<Rightarrow> theme_state" where
  "initThemeToggle s =
     (if stored_theme s = Some ''dark'' \<or> (\<not> truthy (stored_theme s) \<and> prefers_dark s)
      then s\<lparr>data_theme := Some ''dark''\<rparr>
      else s\<lparr>data_theme := Some ''light''\<rparr>)"

definition toggle_click :: "theme_state \<Rightarrow> theme_state" where
  "toggle_click s =
     (let newTheme = flip_theme (data_theme s)
      in s\<lparr>data_theme := Some newTheme, stored_theme := Some newTheme\<rparr>)"

text \<open>script.js installs no listener on the media query: a change of the OS preference
  only changes what the query reports.\<close>

definition prefersDark_change :: "bool \<Rightarrow> theme_state \<Rightarrow> theme_state" where
  "prefersDark_change matches s = s\<lparr>prefers_dark := matches\<rparr>"

section \<open>JavaScript values used by the gallery\<close>

text \<open>
  The lightbox cursor \<open>currentIndex\<close> is a JavaScript number. The code only adds,
  subtracts and takes remainders of array positions and array lengths, so every
  value it can hold is a small integer or \<open>NaN\<close> (the remainder by a zero length).
  \<open>%\<close> truncates: the result has the sign of the dividend. Negative zero is
  identified with zero, which it equals as an array index.
\<close>

datatype jsnum = Num int | NaN

fun js_plus :: "jsnum \<Rightarrow> jsnum \<Rightarrow> jsnum" where
  "js_plus (Num a) (Num b) = Num (a + b)"
| "js_plus _ _ = NaN"

fun js_minus :: "jsnum \<Rightarrow> jsnum \<Rightarrow> jsnum" where
  "js_minus (Num a) (Num b) = Num (a - b)"
| "js_minus _ _ = NaN"

fun js_rem :: "jsnum \<Rightarrow> jsnum \<Rightarrow> jsnum" where
  "js_rem (Num a) (Num b) = (if b = 0 then NaN else Num (sgn a * (\<bar>a\<bar> mod \<bar>b\<bar>)))"
| "js_rem _ _ = NaN"

definition js_length :: "'a list \<Rightarrow> jsnum" where
  "js_length xs = Num (int (length xs))"

text \<open>\<open>xs[i]\<close>: \<open>undefined\<close> (\<open>None\<close>) unless \<open>i\<close> is a position of the array.\<close>

fun array_get :: "'a list \<Rightarrow> jsnum \<Rightarrow> 'a option" where
  "array_get xs (Num i) = (if 0 \<le> i \<and> i < int (length xs) then Some (xs ! nat i) else None)"
| "array_get xs NaN = None"

text \<open>\<open>xs.indexOf(x)\<close>: the first position of \<open>x\<close>, or \<open>-1\<close>.\<close>

fun indexOf_from :: "int \<Rightarrow> 'a list \<Rightarrow> 'a \<Rightarrow> int" where
  "indexOf_from k [] x = -1"
| "indexOf_from k (y # ys) x = (if y = x then k else indexOf_from (k + 1) ys x)"

definition indexOf :: "'a list \<Rightarrow> 'a \<Rightarrow> int" where
  "indexOf xs x = indexOf_from 0 xs x"

text \<open>
  A handler either runs to its end or stops at an uncaught exception; the state it
  leaves behind is returned in both cases, since assignments made before the
  exception stay.
\<close>

datatype js_error = TypeError

datatype completion = Normal | Throw js_error

text \<open>\<open>v || ''\<close> for a value that is \<open>undefined\<close> or a string; assigning \<open>undefined\<close> to
  \<open>textContent\<close> gives the empty text as well.\<close>

definition or_empty :: "string option \<Rightarrow> string" where
  "or_empty v = (case v of None \<Rightarrow> [] | Some t \<Rightarrow> t)"

section \<open>Gallery filter and lightbox\<close>

text \<open>
  A gallery item is an anchor with an \<open>href\<close>, the data attributes \<open>caption\<close> and
  \<open>category\<close> (\<open>undefined\<close> when missing) and an inline \<open>display\<close> style, which is
  empty until a filter sets it. The items are never inserted or removed, so an
  element is referred to by its position in \<open>galleryItems\<close>.
\<close>

datatype css_display = DisplayUnset | DisplayBlock | DisplayNone

record gallery_item =
  href :: string
  data_caption :: "string option"
  data_category :: "string option"
  style_display :: css_display

record filter_btn =
  data_filter :: "string option"
  btn_active :: bool

text \<open>
  The part of the state all versions share: the filter buttons, the items, the
  \<open>currentIndex\<close> variable, the \<open>active\<close> class of \<open>#lightbox\<close>, the \<open>src\<close> of
  \<open>#lightbox-img\<close> and the text of \<open>#lightbox-caption\<close>.
\<close>

record gallery_base =
  filterButtons :: "filter_btn list"
  galleryItems :: "gallery_item list"
  currentIndex :: jsnum
  lightbox_active :: bool
  lightboxImg_src :: string
  lightboxCaption_text :: string

text \<open>script.js keeps the list of the items that are not hidden.\<close>

record gallery = gallery_base +
  allVisibleItems :: "nat list"

text \<open>main.js keeps a copy of every item's source and caption, taken at
  initialisation; \<open>timers\<close> are the pending \<open>setTimeout\<close> callbacks of the filter,
  each of which shows one item.\<close>

record image =
  src :: string
  caption :: "string option"

record gallery_page = gallery_base +
  images :: "image list"
  timers :: "nat list"

text \<open>The test \<open>filter === 'all' || item.dataset.category === filter\<close>, with \<open>tag\<close>
  for the handler's variable \<open>filter\<close>.\<close>

definition filter_matches :: "string option \<Rightarrow> gallery_item \<Rightarrow> bool" where
  "filter_matches tag item = (tag = Some ''all'' \<or> data_category item = tag)"

definition item_visible :: "gallery_item \<Rightarrow> bool" where
  "item_visible item = (style_display item \<noteq> DisplayNone)"

definition activate_button :: "nat \<Rightarrow> filter_btn list \<Rightarrow> filter_btn list" where
  "activate_button b btns =
     (map (\<lambda>btn. btn\<lparr>btn_active := False\<rparr>) btns)[b := (btns ! b)\<lparr>btn_active := True\<rparr>]"

subsection \<open>script.js: \<open>initGallery\<close>\<close>

text \<open>The click listener of filter button \<open>b\<close> (versions 3.0 and 2.1 of script.js
  set the same styles).\<close>

definition filterButton_click :: "nat \<Rightarrow> gallery \<Rightarrow> gallery" where
  "filterButton_click b s =
     (if b < length (filterButtons s) then
        (let tag = data_filter (filterButtons s ! b)
         in s\<lparr>filterButtons := activate_button b (filterButtons s),
               galleryItems :=
                 map (\<lambda>item. item\<lparr>style_display :=
                        (if filter_matches tag item then DisplayBlock else DisplayNone)\<rparr>)
                     (galleryItems s)\<rparr>)
      else s)"

definition updateVisibleItems :: "gallery \<Rightarrow> gallery" where
  "updateVisibleItems s =
     s\<lparr>allVisibleItems :=
         filter (\<lambda>i. style_display (galleryItems s ! i) \<noteq> DisplayNone)
                [0 ..< length (galleryItems s)]\<rparr>"

definition openLightbox :: "jsnum \<Rightarrow> gallery \<Rightarrow> completion \<times> gallery" where
  "openLightbox clickedIndex s =
     (let s1 = s\<lparr>currentIndex := clickedIndex\<rparr>
      in case array_get (allVisibleItems s1) (currentIndex s1) of
           None \<Rightarrow> (Throw TypeError, s1)
         | Some item \<Rightarrow>
             (Normal,
              s1\<lparr>lightboxImg_src := href (galleryItems s1 ! item),
                  lightboxCaption_text := or_empty (data_caption (galleryItems s1 ! item)),
                  lightbox_active := True\<rparr>))"

definition closeLightbox :: "'a gallery_base_scheme \<Rightarrow> 'a gallery_base_scheme" where
  "closeLightbox s = s\<lparr>lightbox_active := False\<rparr>"

definition showPrev :: "gallery \<Rightarrow> completion \<times> gallery" where
  "showPrev s =
     openLightbox
       (js_rem (js_plus (js_minus (currentIndex s) (Num 1)) (js_length (allVisibleItems s)))
               (js_length (allVisibleItems s))) s"

definition showNext :: "gallery \<Rightarrow> completion \<times> gallery" where
  "showNext s =
     openLightbox (js_rem (js_plus (currentIndex s) (Num 1)) (js_length (allVisibleItems s))) s"

text \<open>The click listener of gallery item \<open>k\<close>.\<close>

definition galleryItem_click :: "nat \<Rightarrow> gallery \<Rightarrow> completion \<times> gallery" where
  "galleryItem_click k s =
     (if k < length (galleryItems s) then
        (let s1 = updateVisibleItems s
         in openLightbox (Num (indexOf (allVisibleItems s1) k)) s1)
      else (Normal, s))"

text \<open>A click inside \<open>#lightbox\<close> bubbles to its listener, which closes only when the
  backdrop itself was hit.\<close>

datatype click_target = Backdrop | Inside

definition lightbox_click :: "click_target \<Rightarrow> 'a gallery_base_scheme \<Rightarrow> 'a gallery_base_scheme" where
  "lightbox_click target s = (if target = Backdrop then closeLightbox s else s)"

definition keydown :: "string \<Rightarrow> gallery \<Rightarrow> completion \<times> gallery" where
  "keydown key s =
     (if lightbox_active s then
        (let s1 = (if key = ''Escape'' then closeLightbox s else s);
             (c2, s2) = (if key = ''ArrowLeft'' then showPrev s1 else (Normal, s1))
         in case c2 of
              Throw e \<Rightarrow> (Throw e, s2)
            | Normal \<Rightarrow> (if key = ''ArrowRight'' then showNext s2 else (Normal, s2)))
      else (Normal, s))"

text \<open>
  \<open>initGallery\<close> of version 3.0 gives up without \<open>.gallery-grid\<close> or \<open>#lightbox\<close>;
  otherwise the listeners above are installed over the page as loaded, with the
  cursor at 0 and no visible-item list yet.
\<close>

definition initGallery :: "bool \<Rightarrow> bool \<Rightarrow> gallery_base \<Rightarrow> gallery option" where
  "initGallery has_grid has_lightbox page =
     (if \<not> has_grid then None
      else if \<not> has_lightbox then None
      else Some \<lparr>filterButtons = filterButtons page, galleryItems = galleryItems page,
                 currentIndex = Num 0, lightbox_active = lightbox_active page,
                 lightboxImg_src = lightboxImg_src page,
                 lightboxCaption_text = lightboxCaption_text page,
                 allVisibleItems = []\<rparr>)"

subsection \<open>script.js, version 2.1\<close>

text \<open>
  The older script in the same file differs in the lightbox: \<open>openLightbox\<close>
  recomputes the visible items itself, and \<open>showPrev\<close>/\<open>showNext\<close> assign the
  cursor before they call it.
\<close>

definition openLightbox_v21 :: "jsnum \<Rightarrow> gallery \<Rightarrow> completion \<times> gallery" where
  "openLightbox_v21 clickedIndex s =
     (let s0 = updateVisibleItems s;
          s1 = s0\<lparr>currentIndex := clickedIndex\<rparr>
      in case array_get (allVisibleItems s1) (currentIndex s1) of
           None \<Rightarrow> (Throw TypeError, s1)
         | Some item \<Rightarrow>
             (Normal,
              s1\<lparr>lightboxImg_src := href (galleryItems s1 ! item),
                  lightboxCaption_text := or_empty (data_caption (galleryItems s1 ! item)),
                  lightbox_active := True\<rparr>))"

definition showPrev_v21 :: "gallery \<Rightarrow> completion \<times> gallery" where
  "showPrev_v21 s =
     (let s1 = s\<lparr>currentIndex :=
                   js_rem (js_plus (js_minus (currentIndex s) (Num 1))
                                   (js_length (allVisibleItems s)))
                          (js_length (allVisibleItems s))\<rparr>
      in openLightbox_v21 (currentIndex s1) s1)"

definition showNext_v21 :: "gallery \<Rightarrow> completion \<times> gallery" where
  "showNext_v21 s =
     (let s1 = s\<lparr>currentIndex :=
                   js_rem (js_plus (currentIndex s) (Num 1)) (js_length (allVisibleItems s))\<rparr>
      in openLightbox_v21 (currentIndex s1) s1)"

definition galleryItem_click_v21 :: "nat \<Rightarrow> gallery \<Rightarrow> completion \<times> gallery" where
  "galleryItem_click_v21 k s =
     (if k < length (galleryItems s) then
        (let s1 = updateVisibleItems s;
             clickedIndex = Num (indexOf (allVisibleItems s1) k)
         in openLightbox_v21 clickedIndex s1)
      else (Normal, s))"

definition keydown_v21 :: "string \<Rightarrow> gallery \<Rightarrow> completion \<times> gallery" where
  "keydown_v21 key s =
     (if lightbox_active s then
        (let s1 = (if key = ''Escape'' then closeLightbox s else s);
             (c2, s2) = (if key = ''ArrowLeft'' then showPrev_v21 s1 else (Normal, s1))
         in case c2 of
              Throw e \<Rightarrow> (Throw e, s2)
            | Normal \<Rightarrow> (if key = ''ArrowRight'' then showNext_v21 s2 else (Normal, s2)))
      else (Normal, s))"

text \<open>
  \<open>initGallery\<close> of version 2.1 gives up only without a gallery grid. It does not
  test \<open>#lightbox\<close>: without it the filter and item listeners are installed and the
  script then stops at load with a \<open>TypeError\<close> on \<open>lightbox.querySelector\<close>, before
  the listeners of the lightbox controls and of the keyboard are installed.
\<close>

definition initGallery_v21 :: "bool \<Rightarrow> bool \<Rightarrow> gallery_base \<Rightarrow> (completion \<times> gallery) option" where
  "initGallery_v21 has_grid has_lightbox page =
     (if \<not> has_grid then None
      else Some (if has_lightbox then Normal else Throw TypeError,
                 \<lparr>filterButtons = filterButtons page, galleryItems = galleryItems page,
                  currentIndex = Num 0, lightbox_active = lightbox_active page,
                  lightboxImg_src = lightboxImg_src page,
                  lightboxCaption_text = lightboxCaption_text page,
                  allVisibleItems = []\<rparr>))"

subsection \<open>main.js: \<open>initGalleryPage\<close>\<close>

text \<open>
  The filter of main.js hides every item at once and shows the matching ones from
  \<open>setTimeout\<close> callbacks, 1 ms later. The callbacks are queued in \<open>timers\<close> in the
  order in which they were scheduled, which is the order in which they fire.
\<close>

definition page_filterButton_click :: "nat \<Rightarrow> gallery_page \<Rightarrow> gallery_page" where
  "page_filterButton_click b s =
     (if b < length (filterButtons s) then
        (let tag = data_filter (filterButtons s ! b)
         in s\<lparr>filterButtons := activate_button b (filterButtons s),
               galleryItems := map (\<lambda>item. item\<lparr>style_display := DisplayNone\<rparr>) (galleryItems s),
               timers := timers s @
                 filter (\<lambda>i. filter_matches tag (galleryItems s ! i))
                        [0 ..< length (galleryItems s)]\<rparr>)
      else s)"

definition timer_fire :: "nat \<Rightarrow> gallery_item list \<Rightarrow> gallery_item list" where
  "timer_fire i items = items[i := (items ! i)\<lparr>style_display := DisplayBlock\<rparr>]"

text \<open>All pending callbacks fire.\<close>

definition run_timers :: "gallery_page \<Rightarrow> gallery_page" where
  "run_timers s = s\<lparr>galleryItems := fold timer_fire (timers s) (galleryItems s), timers := []\<rparr>"

definition page_openLightbox :: "jsnum \<Rightarrow> gallery_page \<Rightarrow> completion \<times> gallery_page" where
  "page_openLightbox index s =
     (let s1 = s\<lparr>currentIndex := index\<rparr>
      in case array_get (images s1) (currentIndex s1) of
           None \<Rightarrow> (Throw TypeError, s1)
         | Some img \<Rightarrow>
             (Normal,
              s1\<lparr>lightboxImg_src := src img,
                  lightboxCaption_text := or_empty (caption img),
                  lightbox_active := True\<rparr>))"

definition page_showPrev :: "gallery_page \<Rightarrow> completion \<times> gallery_page" where
  "page_showPrev s =
     (let s1 = s\<lparr>currentIndex :=
                   js_rem (js_plus (js_minus (currentIndex s) (Num 1)) (js_length (images s)))
                          (js_length (images s))\<rparr>
      in page_openLightbox (currentIndex s1) s1)"

definition page_showNext :: "gallery_page \<Rightarrow> completion \<times> gallery_page" where
  "page_showNext s =
     (let s1 = s\<lparr>currentIndex :=
                   js_rem (js_plus (currentIndex s) (Num 1)) (js_length (images s))\<rparr>
      in page_openLightbox (currentIndex s1) s1)"

text \<open>The click listener of gallery item \<open>k\<close> opens at the item's position among
  all items.\<close>

definition page_galleryItem_click :: "nat \<Rightarrow> gallery_page \<Rightarrow> completion \<times> gallery_page" where
  "page_galleryItem_click k s =
     (if k < length (galleryItems s) then page_openLightbox (Num (int k)) s else (Normal, s))"

definition page_keydown :: "string \<Rightarrow> gallery_page \<Rightarrow> completion \<times> gallery_page" where
  "page_keydown key s =
     (if lightbox_active s then
        (let s1 = (if key = ''Escape'' then closeLightbox s else s);
             (c2, s2) = (if key = ''ArrowLeft'' then page_showPrev s1 else (Normal, s1))
         in case c2 of
              Throw e \<Rightarrow> (Throw e, s2)
            | Normal \<Rightarrow> (if key = ''ArrowRight'' then page_showNext s2 else (Normal, s2)))
      else (Normal, s))"

text \<open>\<open>initGalleryPage\<close> gives up when there is no filter button or no \<open>#lightbox\<close>.\<close>

definition initGalleryPage :: "bool \<Rightarrow> gallery_base \<Rightarrow> gallery_page option" where
  "initGalleryPage has_lightbox page =
     (if filterButtons page = [] then None
      else if \<not> has_lightbox then None
      else Some \<lparr>filterButtons = filterButtons page, galleryItems = galleryItems page,
                 currentIndex = Num 0, lightbox_active = lightbox_active page,
                 lightboxImg_src = lightboxImg_src page,
                 lightboxCaption_text = lightboxCaption_text page,
                 images = map (\<lambda>link. \<lparr>src = href link, caption = data_caption link\<rparr>)
                              (galleryItems page),
                 timers = []\<rparr>)"

section \<open>Intersection observers\<close>

text \<open>An entry of a callback batch: the observed element it is about and whether that
  element intersects.\<close>

record 't entry =
  target :: 't
  isIntersecting :: bool

subsection \<open>Viewport reveal: \<open>fadeInObserver\<close> (script.js) and \<open>observerCallback\<close> (main.js)\<close>

text \<open>
  Elements are numbered. \<open>visible_class\<close> holds the elements whose class list
  contains \<open>is-visible\<close>, \<open>observed\<close> the targets of the observer. \<open>additions\<close>
  is a ghost counter: how often the token \<open>is-visible\<close> was inserted into the
  element's class list (\<open>classList.add\<close> inserts a token only if it is not there).
\<close>

record reveal_state =
  visible_class :: "nat set"
  observed :: "nat set"
  additions :: "nat \<Rightarrow> nat"

definition classList_add :: "nat \<Rightarrow> reveal_state \<Rightarrow> reveal_state" where
  "classList_add e s =
     (if e \<in> visible_class s then s
      else s\<lparr>visible_class := insert e (visible_class s),
             additions := (additions s)(e := additions s e + 1)\<rparr>)"

definition observe :: "nat \<Rightarrow> reveal_state \<Rightarrow> reveal_state" where
  "observe e s = s\<lparr>observed := insert e (observed s)\<rparr>"

definition unobserve :: "nat \<Rightarrow> reveal_state \<Rightarrow> reveal_state" where
  "unobserve e s = s\<lparr>observed := observed s - {e}\<rparr>"

text \<open>The function applied to each entry of a batch, and the callback.\<close>

definition reveal_entry :: "nat entry \<Rightarrow> reveal_state \<Rightarrow> reveal_state" where
  "reveal_entry entry s =
     (if isIntersecting entry
      then unobserve (target entry) (classList_add (target entry) s)
      else s)"

definition observerCallback :: "nat entry list \<Rightarrow> reveal_state \<Rightarrow> reveal_state" where
  "observerCallback entries s = fold reveal_entry entries s"

text \<open>Initialisation observes every animated element (the transition delays main.js
  sets on the way are styling and left out); a page load then is a sequence of
  callback batches.\<close>

definition initScrollObserver :: "nat list \<Rightarrow> reveal_state \<Rightarrow> reveal_state" where
  "initScrollObserver animatedElements s = fold observe animatedElements s"

definition deliver :: "nat entry list list \<Rightarrow> reveal_state \<Rightarrow> reveal_state" where
  "deliver batches s = fold observerCallback batches s"

subsection \<open>Scroll-spy: \<open>initAttractionsNav\<close>, \<open>initPolicyNav\<close>, \<open>initPolicyNavObserver\<close>\<close>

text \<open>
  A navigation link has an \<open>href\<close> attribute (\<open>null\<close> when missing) and may carry
  the class \<open>active\<close>. The target of an entry is given by its \<open>id\<close> attribute.
\<close>

record nav_link =
  link_href :: "string option"
  link_active :: bool

text \<open>\<open>`#${id}`\<close> for \<open>id = target.getAttribute('id')\<close> (script.js; \<open>null\<close> prints as
  \<open>null\<close>) and for \<open>id = target.id\<close> (main.js; empty when there is no attribute).\<close>

definition hash_getAttribute :: "string option \<Rightarrow> string" where
  "hash_getAttribute a = CHR ''#'' # (case a of None \<Rightarrow> ''null'' | Some t \<Rightarrow> t)"

definition hash_id :: "string option \<Rightarrow> string" where
  "hash_id a = CHR ''#'' # (case a of None \<Rightarrow> [] | Some t \<Rightarrow> t)"

text \<open>\<open>link.classList.toggle('active', link.getAttribute('href') === h)\<close> over all links.\<close>

definition toggle_links :: "string \<Rightarrow> nav_link list \<Rightarrow> nav_link list" where
  "toggle_links h navLinks = map (\<lambda>link. link\<lparr>link_active := (link_href link = Some h)\<rparr>) navLinks"

text \<open>Version 2.1 removes the class and adds it again on a match.\<close>

definition remove_add_links :: "string \<Rightarrow> nav_link list \<Rightarrow> nav_link list" where
  "remove_add_links h navLinks =
     map (\<lambda>link. let l1 = link\<lparr>link_active := False\<rparr>
                 in if link_href l1 = Some h then l1\<lparr>link_active := True\<rparr> else l1) navLinks"

text \<open>The function applied to each entry of a batch, in script.js 3.0, in script.js 2.1
  and in main.js, and the three callbacks.\<close>

definition navObserver_entry :: "string option entry \<Rightarrow> nav_link list \<Rightarrow> nav_link list" where
  "navObserver_entry entry navLinks =
     (if isIntersecting entry
      then toggle_links (hash_getAttribute (target entry)) navLinks
      else navLinks)"

definition navObserver_entry_v21 :: "string option entry \<Rightarrow> nav_link list \<Rightarrow> nav_link list" where
  "navObserver_entry_v21 entry navLinks =
     (if isIntersecting entry
      then remove_add_links (hash_getAttribute (target entry)) navLinks
      else navLinks)"

definition policyNavObserver_entry :: "string option entry \<Rightarrow> nav_link list \<Rightarrow> nav_link list" where
  "policyNavObserver_entry entry policyNavLinks =
     (if isIntersecting entry
      then toggle_links (hash_id (target entry)) policyNavLinks
      else policyNavLinks)"

definition navObserver_callback :: "string option entry list \<Rightarrow> nav_link list \<Rightarrow> nav_link list" where
  "navObserver_callback entries navLinks = fold navObserver_entry entries navLinks"

definition navObserver_callback_v21 :: "string option entry list \<Rightarrow> nav_link list \<Rightarrow> nav_link list" where
  "navObserver_callback_v21 entries navLinks = fold navObserver_entry_v21 entries navLinks"

definition policyNavObserver_callback :: "string option entry list \<Rightarrow> nav_link list \<Rightarrow> nav_link list" where
  "policyNavObserver_callback entries policyNavLinks =
     fold policyNavObserver_entry entries policyNavLinks"

section \<open>Example pages\<close>

text \<open>A gallery page with three filter buttons and three items, as loaded, and the
  same page without items.\<close>

definition demo_buttons :: "filter_btn list" where
  "demo_buttons =
     [\<lparr>data_filter = Some ''all'', btn_active = True\<rparr>,
      \<lparr>data_filter = Some ''rooms'', btn_active = False\<rparr>,
      \<lparr>data_filter = Some ''dining'', btn_active = False\<rparr>]"

definition demo_items :: "gallery_item list" where
  "demo_items =
     [\<lparr>href = ''suite.jpg'', data_caption = Some ''Suite'', data_category = Some ''rooms'',
        style_display = DisplayUnset\<rparr>,
      \<lparr>href = ''buffet.jpg'', data_caption = Some ''Buffet'', data_category = Some ''dining'',
        style_display = DisplayUnset\<rparr>,
      \<lparr>href = ''deluxe.jpg'', data_caption = None, data_category = Some ''rooms'',
        style_display = DisplayUnset\<rparr>]"

definition demo_page :: gallery_base where
  "demo_page =
     \<lparr>filterButtons = demo_buttons, galleryItems = demo_items, currentIndex = Num 0,
      lightbox_active = False, lightboxImg_src = [], lightboxCaption_text = []\<rparr>"

definition empty_page :: gallery_base where
  "empty_page =
     \<lparr>filterButtons = demo_buttons, galleryItems = [], currentIndex = Num 0,
      lightbox_active = False, lightboxImg_src = [], lightboxCaption_text = []\<rparr>"

text \<open>Three navigation links, the first one active in the markup, and a callback
  batch in which two sections intersect.\<close>

definition demo_links :: "nav_link list" where
  "demo_links =
     [\<lparr>link_href = Some ''#temples'', link_active = True\<rparr>,
      \<lparr>link_href = Some ''#beaches'', link_active = False\<rparr>,
      \<lparr>link_href = Some ''#markets'', link_active = False\<rparr>]"

definition demo_batch :: "string option entry list" where
  "demo_batch =
     [\<lparr>target = Some ''beaches'', isIntersecting = True\<rparr>,
      \<lparr>target = Some ''markets'', isIntersecting = True\<rparr>,
      \<lparr>target = Some ''temples'', isIntersecting = False\<rparr>]"

section \<open>Properties of the theme manager\<close>

text \<open>
  C4. \<open>getInitialTheme\<close> of main.js depends only on the stored preference and the OS
  preference: over the three stored states (absent, light, dark) and the two OS
  preferences it returns the stored value when there is one and the OS theme
  otherwise. The state \<open>s\<close> is arbitrary, so nothing else is read.
\<close>

theorem getInitialTheme_table:
  "getInitialTheme (s\<lparr>stored_theme := None, prefers_dark := False\<rparr>) = ''light'' \<and>
   getInitialTheme (s\<lparr>stored_theme := None, prefers_dark := True\<rparr>) = ''dark'' \<and>
   getInitialTheme (s\<lparr>stored_theme := Some ''light'', prefers_dark := False\<rparr>) = ''light'' \<and>
   getInitialTheme (s\<lparr>stored_theme := Some ''light'', prefers_dark := True\<rparr>) = ''light'' \<and>
   getInitialTheme (s\<lparr>stored_theme := Some ''dark'', prefers_dark := False\<rparr>) = ''dark'' \<and>
   getInitialTheme (s\<lparr>stored_theme := Some ''dark'', prefers_dark := True\<rparr>) = ''dark''"
  by (simp add: getInitialTheme_def os_theme_def)

text \<open>
  The listener on the media query follows the OS while nothing is stored and leaves
  theme and storage alone once something is.
\<close>

lemma os_change_follows_when_unset:
  "\<not> truthy (stored_theme s) \<Longrightarrow>
     data_theme (systemPrefersDark_change matches s) = Some (os_theme matches)"
  by (simp add: systemPrefersDark_change_def applyTheme_def Let_def)

lemma os_change_keeps_explicit_choice:
  "truthy (stored_theme s) \<Longrightarrow>
     data_theme (systemPrefersDark_change matches s) = data_theme s \<and>
     stored_theme (systemPrefersDark_change matches s) = stored_theme s"
  by (simp add: systemPrefersDark_change_def applyTheme_def Let_def)

text \<open>
  But \<open>applyTheme\<close> stores whatever it applies, and initialisation applies the initial
  theme through it: after \<open>initThemeManager\<close> a preference is always stored, also
  when none was before, and no later change of the OS preference reaches the page.
\<close>

lemma initThemeManager_stores: "truthy (stored_theme (initThemeManager True s))"
  by (simp add: initThemeManager_def applyTheme_def getInitialTheme_def truthy_def os_theme_def
      split: option.splits)

lemma os_change_after_init_ignored:
  "data_theme (systemPrefersDark_change matches (initThemeManager True s)) =
     data_theme (initThemeManager True s)"
  using initThemeManager_stores [of s] by (simp add: os_change_keeps_explicit_choice)

text \<open>
  C1. A page loaded with nothing stored while the OS prefers light: initialisation
  applies \<open>light\<close> and stores it. When the OS then switches to dark, the listener
  finds a stored value and does nothing: the page stays light, where the claim has
  it follow the OS.
\<close>

theorem os_change_after_unset_init_is_lost:
  "initThemeManager True \<lparr>data_theme = None, stored_theme = None, prefers_dark = False\<rparr>
     = \<lparr>data_theme = Some ''light'', stored_theme = Some ''light'', prefers_dark = False\<rparr> \<and>
   systemPrefersDark_change True
     (initThemeManager True \<lparr>data_theme = None, stored_theme = None, prefers_dark = False\<rparr>)
     = \<lparr>data_theme = Some ''light'', stored_theme = Some ''light'', prefers_dark = True\<rparr>"
  by (simp add: initThemeManager_def applyTheme_def getInitialTheme_def os_theme_def
      systemPrefersDark_change_def truthy_def)

text \<open>
  C9, as stated, fails on script.js: loaded with nothing stored, the page shows
  \<open>light\<close>; two clicks on the toggle bring \<open>light\<close> back, but now \<open>light\<close> is stored
  where nothing was.
\<close>

theorem toggle_twice_stored_counterexample:
  "data_theme (initThemeToggle \<lparr>data_theme = None, stored_theme = None, prefers_dark = False\<rparr>)
     = Some ''light'' \<and>
   stored_theme (toggle_click (toggle_click
       (initThemeToggle \<lparr>data_theme = None, stored_theme = None, prefers_dark = False\<rparr>)))
     \<noteq> stored_theme (initThemeToggle \<lparr>data_theme = None, stored_theme = None, prefers_dark = False\<rparr>)"
  by (simp add: initThemeToggle_def toggle_click_def flip_theme_def truthy_def Let_def)

text \<open>
  C9, amended. With \<open>light\<close> or \<open>dark\<close> applied, one click on the toggle (of script.js
  and of main.js) applies the other theme and stores it; two clicks restore the
  applied theme and leave exactly that theme stored, whatever was stored before.
\<close>

theorem toggle_flips_and_persists:
  assumes "data_theme s = Some t" and "t = ''light'' \<or> t = ''dark''"
  shows "data_theme (toggle_click s) = Some (flip_theme (Some t)) \<and>
         stored_theme (toggle_click s) = Some (flip_theme (Some t)) \<and>
         flip_theme (Some t) \<noteq> t \<and>
         data_theme (toggle_click (toggle_click s)) = Some t \<and>
         stored_theme (toggle_click (toggle_click s)) = Some t \<and>
         data_theme (themeToggle_click s) = Some (flip_theme (Some t)) \<and>
         stored_theme (themeToggle_click s) = Some (flip_theme (Some t)) \<and>
         data_theme (themeToggle_click (themeToggle_click s)) = Some t \<and>
         stored_theme (themeToggle_click (themeToggle_click s)) = Some t"
  using assms
  by (auto simp add: toggle_click_def themeToggle_click_def applyTheme_def flip_theme_def Let_def)

text \<open>A page showing \<open>dark\<close> with nothing stored: one click gives \<open>light\<close>, two clicks
  give \<open>dark\<close> again, now stored.\<close>

theorem toggle_flips_and_persists_witness:
  "data_theme (toggle_click \<lparr>data_theme = Some ''dark'', stored_theme = None, prefers_dark = True\<rparr>)
     = Some ''light'' \<and>
   stored_theme (toggle_click (toggle_click
      \<lparr>data_theme = Some ''dark'', stored_theme = None, prefers_dark = True\<rparr>)) = Some ''dark''"
  using toggle_flips_and_persists
    [of "\<lparr>data_theme = Some ''dark'', stored_theme = None, prefers_dark = True\<rparr>" "''dark''"]
  by (simp add: flip_theme_def)

section \<open>Properties of the lightbox\<close>

text \<open>
  C10. Closing changes nothing but the \<open>active\<close> class of the lightbox: cursor,
  image, caption, items (with their display styles), filter buttons and the rest
  of the state stay. The close button runs \<open>closeLightbox\<close> itself; a click on the
  backdrop and the Escape key end in the same state, in every version.
\<close>

theorem closeLightbox_frame:
  "lightbox_active (closeLightbox s) = False \<and>
   currentIndex (closeLightbox s) = currentIndex s \<and>
   lightboxImg_src (closeLightbox s) = lightboxImg_src s \<and>
   lightboxCaption_text (closeLightbox s) = lightboxCaption_text s \<and>
   galleryItems (closeLightbox s) = galleryItems s \<and>
   filterButtons (closeLightbox s) = filterButtons s \<and>
   gallery_base.more (closeLightbox s) = gallery_base.more s \<and>
   lightbox_click Backdrop s = closeLightbox s \<and>
   keydown ''Escape'' g = (Normal, closeLightbox g) \<and>
   keydown_v21 ''Escape'' g = (Normal, closeLightbox g) \<and>
   page_keydown ''Escape'' p = (Normal, closeLightbox p)"
  by (cases g; cases p)
     (simp add: closeLightbox_def lightbox_click_def keydown_def keydown_v21_def page_keydown_def)

subsection \<open>Cursor arithmetic\<close>

lemma js_next_index:
  assumes "0 \<le> i" and "i < n"
  shows "js_rem (js_plus (Num i) (Num 1)) (Num n) = Num ((i + 1) mod n)"
  using assms by (simp add: sgn_if)

lemma js_prev_index:
  assumes "0 \<le> i" and "i < n"
  shows "js_rem (js_plus (js_minus (Num i) (Num 1)) (Num n)) (Num n) = Num ((i - 1 + n) mod n)"
proof -
  have a: "0 \<le> i - 1 + n" and n: "n \<noteq> 0" "\<bar>n\<bar> = n"
    using assms by linarith+
  have "sgn (i - 1 + n) * (\<bar>i - 1 + n\<bar> mod \<bar>n\<bar>) = (i - 1 + n) mod n"
  proof (cases "i - 1 + n = 0")
    case True
    then show ?thesis by simp
  next
    case False
    with a have "0 < i - 1 + n" by linarith
    then show ?thesis using n by simp
  qed
  then show ?thesis using n by simp
qed

lemma openLightbox_cursor: "currentIndex (snd (openLightbox c s)) = c"
  by (simp add: openLightbox_def Let_def split: option.splits)

lemma openLightbox_v21_cursor: "currentIndex (snd (openLightbox_v21 c s)) = c"
  by (simp add: openLightbox_v21_def updateVisibleItems_def Let_def split: option.splits)

lemma page_openLightbox_cursor: "currentIndex (snd (page_openLightbox c s)) = c"
  by (simp add: page_openLightbox_def Let_def split: option.splits)

lemma openLightbox_in_range:
  "0 \<le> j \<Longrightarrow> j < int (length (allVisibleItems s)) \<Longrightarrow> fst (openLightbox (Num j) s) = Normal"
  by (simp add: openLightbox_def Let_def)

lemma page_openLightbox_in_range:
  "0 \<le> j \<Longrightarrow> j < int (length (images s)) \<Longrightarrow> fst (page_openLightbox (Num j) s) = Normal"
  by (simp add: page_openLightbox_def Let_def)

text \<open>
  Each lightbox wraps over the list it navigates. In script.js (both versions) that
  is the variable \<open>allVisibleItems\<close>: with the cursor at a position \<open>i\<close> of it,
  \<open>showNext\<close> moves the cursor to \<open>(i + 1) mod N\<close> and \<open>showPrev\<close> to
  \<open>(i - 1 + N) mod N\<close>, where \<open>N\<close> is its length.
\<close>

lemma cursor_wraps_over_allVisibleItems:
  assumes "currentIndex s = Num i" and "0 \<le> i" and "i < int (length (allVisibleItems s))"
  shows "currentIndex (snd (showNext s)) = Num ((i + 1) mod int (length (allVisibleItems s)))"
    and "currentIndex (snd (showPrev s)) =
           Num ((i - 1 + int (length (allVisibleItems s))) mod int (length (allVisibleItems s)))"
    and "fst (showNext s) = Normal" and "fst (showPrev s) = Normal"
    and "currentIndex (snd (showNext_v21 s)) = Num ((i + 1) mod int (length (allVisibleItems s)))"
    and "currentIndex (snd (showPrev_v21 s)) =
           Num ((i - 1 + int (length (allVisibleItems s))) mod int (length (allVisibleItems s)))"
proof -
  let ?n = "int (length (allVisibleItems s))"
  have nx: "js_rem (js_plus (currentIndex s) (Num 1)) (js_length (allVisibleItems s))
              = Num ((i + 1) mod ?n)"
    using assms js_next_index [of i ?n] by (simp only: js_length_def)
  have pv: "js_rem (js_plus (js_minus (currentIndex s) (Num 1)) (js_length (allVisibleItems s)))
              (js_length (allVisibleItems s)) = Num ((i - 1 + ?n) mod ?n)"
    using assms js_prev_index [of i ?n] by (simp only: js_length_def)
  have npos: "0 < ?n"
    using assms by linarith
  have r1: "0 \<le> (i + 1) mod ?n \<and> (i + 1) mod ?n < ?n"
    using npos by simp
  have r2: "0 \<le> (i - 1 + ?n) mod ?n \<and> (i - 1 + ?n) mod ?n < ?n"
    using npos by simp
  show "currentIndex (snd (showNext s)) = Num ((i + 1) mod ?n)"
    unfolding showNext_def nx by (rule openLightbox_cursor)
  show "currentIndex (snd (showPrev s)) = Num ((i - 1 + ?n) mod ?n)"
    unfolding showPrev_def pv by (rule openLightbox_cursor)
  show "fst (showNext s) = Normal"
    unfolding showNext_def nx using r1 by (simp add: openLightbox_in_range)
  show "fst (showPrev s) = Normal"
    unfolding showPrev_def pv using r2 by (simp add: openLightbox_in_range)
  show "currentIndex (snd (showNext_v21 s)) = Num ((i + 1) mod ?n)"
    unfolding showNext_v21_def nx Let_def by (simp add: openLightbox_v21_cursor)
  show "currentIndex (snd (showPrev_v21 s)) = Num ((i - 1 + ?n) mod ?n)"
    unfolding showPrev_v21_def pv Let_def by (simp add: openLightbox_v21_cursor)
qed

text \<open>In main.js the list is \<open>images\<close>, which holds every item, hidden or not.\<close>

lemma page_cursor_wraps_over_images:
  assumes "currentIndex p = Num j" and "0 \<le> j" and "j < int (length (images p))"
  shows "currentIndex (snd (page_showNext p)) = Num ((j + 1) mod int (length (images p)))"
    and "currentIndex (snd (page_showPrev p)) =
           Num ((j - 1 + int (length (images p))) mod int (length (images p)))"
    and "fst (page_showNext p) = Normal" and "fst (page_showPrev p) = Normal"
proof -
  let ?m = "int (length (images p))"
  have pnx: "js_rem (js_plus (currentIndex p) (Num 1)) (js_length (images p))
               = Num ((j + 1) mod ?m)"
    using assms js_next_index [of j ?m] by (simp only: js_length_def)
  have ppv: "js_rem (js_plus (js_minus (currentIndex p) (Num 1)) (js_length (images p)))
              (js_length (images p)) = Num ((j - 1 + ?m) mod ?m)"
    using assms js_prev_index [of j ?m] by (simp only: js_length_def)
  have mpos: "0 < ?m"
    using assms by linarith
  have r3: "0 \<le> (j + 1) mod ?m \<and> (j + 1) mod ?m < ?m"
    using mpos by simp
  have r4: "0 \<le> (j - 1 + ?m) mod ?m \<and> (j - 1 + ?m) mod ?m < ?m"
    using mpos by simp
  show "currentIndex (snd (page_showNext p)) = Num ((j + 1) mod ?m)"
    unfolding page_showNext_def pnx Let_def by (simp add: page_openLightbox_cursor)
  show "currentIndex (snd (page_showPrev p)) = Num ((j - 1 + ?m) mod ?m)"
    unfolding page_showPrev_def ppv Let_def by (simp add: page_openLightbox_cursor)
  show "fst (page_showNext p) = Normal"
    unfolding page_showNext_def pnx Let_def using r3 by (simp add: page_openLightbox_in_range)
  show "fst (page_showPrev p) = Normal"
    unfolding page_showPrev_def ppv Let_def using r4 by (simp add: page_openLightbox_in_range)
qed

subsection \<open>Evaluating the example pages\<close>

lemmas demo_defs = demo_page_def demo_items_def demo_buttons_def empty_page_def

lemmas script_defs = initGallery_def galleryItem_click_def updateVisibleItems_def openLightbox_def
  showNext_def showPrev_def js_length_def indexOf_def or_empty_def activate_button_def
  filter_matches_def filterButton_click_def openLightbox_v21_def showNext_v21_def showPrev_v21_def

lemmas page_defs = initGalleryPage_def page_showNext_def page_showPrev_def page_openLightbox_def
  page_galleryItem_click_def page_filterButton_click_def run_timers_def timer_fire_def
  js_length_def or_empty_def activate_button_def filter_matches_def

text \<open>With the grid and \<open>#lightbox\<close> on the page, both versions of script.js start from
  the same state.\<close>

lemma initGallery_v21_same_start:
  "initGallery_v21 True True page = Some (Normal, the (initGallery True True page))"
  by (simp add: initGallery_v21_def initGallery_def)

text \<open>
  C2. A gallery page without items, just initialised: the list the lightbox
  navigates is empty and the cursor is 0. A click on the next or the previous
  control takes the remainder by the length 0, which is \<open>NaN\<close>, stores it in
  \<open>currentIndex\<close> and then fails with a \<open>TypeError\<close> on the missing entry, in all
  three versions. The operation is neither refused before the remainder nor
  without effect: the cursor is \<open>NaN\<close> afterwards. In script.js the list is empty
  on any page until the first item is opened.
\<close>

theorem navigation_on_empty_list:
  "showNext (the (initGallery True True empty_page))
     = (Throw TypeError, (the (initGallery True True empty_page))\<lparr>currentIndex := NaN\<rparr>) \<and>
   showPrev (the (initGallery True True empty_page))
     = (Throw TypeError, (the (initGallery True True empty_page))\<lparr>currentIndex := NaN\<rparr>) \<and>
   showNext_v21 (the (initGallery True True empty_page))
     = (Throw TypeError, (the (initGallery True True empty_page))\<lparr>currentIndex := NaN\<rparr>) \<and>
   showPrev_v21 (the (initGallery True True empty_page))
     = (Throw TypeError, (the (initGallery True True empty_page))\<lparr>currentIndex := NaN\<rparr>) \<and>
   page_showNext (the (initGalleryPage True empty_page))
     = (Throw TypeError, (the (initGalleryPage True empty_page))\<lparr>currentIndex := NaN\<rparr>) \<and>
   page_showPrev (the (initGalleryPage True empty_page))
     = (Throw TypeError, (the (initGalleryPage True empty_page))\<lparr>currentIndex := NaN\<rparr>) \<and>
   currentIndex (the (initGallery True True empty_page)) = Num 0 \<and>
   currentIndex (the (initGalleryPage True empty_page)) = Num 0"
  by (simp add: script_defs page_defs demo_defs Let_def)

subsection \<open>Opening the lightbox\<close>

lemma indexOf_from_found:
  "x \<in> set xs \<Longrightarrow>
     k \<le> indexOf_from k xs x \<and> indexOf_from k xs x < k + int (length xs) \<and>
     xs ! nat (indexOf_from k xs x - k) = x"
proof (induction xs arbitrary: k)
  case Nil
  then show ?case by simp
next
  case (Cons y ys)
  show ?case
  proof (cases "y = x")
    case True
    then show ?thesis by simp
  next
    case False
    with Cons.prems have "x \<in> set ys" by simp
    from Cons.IH [OF this, of "k + 1"]
    have ih: "k + 1 \<le> indexOf_from (k + 1) ys x"
      "indexOf_from (k + 1) ys x < k + 1 + int (length ys)"
      "ys ! nat (indexOf_from (k + 1) ys x - (k + 1)) = x"
      by simp_all
    have "nat (indexOf_from (k + 1) ys x - k) = Suc (nat (indexOf_from (k + 1) ys x - (k + 1)))"
      using ih(1) by linarith
    with ih False show ?thesis by simp
  qed
qed

lemma indexOf_found:
  assumes "x \<in> set xs"
  shows "0 \<le> indexOf xs x" and "indexOf xs x < int (length xs)" and "xs ! nat (indexOf xs x) = x"
  using indexOf_from_found [OF assms, of 0] by (simp_all add: indexOf_def)

text \<open>
  In script.js a click on a visible item recomputes the visible items from the
  display styles as they are, puts the cursor on the position \<open>j\<close> of the clicked
  item in that list, loads its image and caption and activates the lightbox.
\<close>

lemma galleryItem_click_opens_clicked:
  assumes "k < length (galleryItems s)" and "item_visible (galleryItems s ! k)"
  defines "vis \<equiv> filter (\<lambda>i. item_visible (galleryItems s ! i)) [0 ..< length (galleryItems s)]"
  shows "\<exists>j < length vis. vis ! j = k \<and>
           galleryItem_click k s =
             (Normal, s\<lparr>allVisibleItems := vis, currentIndex := Num (int j),
                        lightboxImg_src := href (galleryItems s ! k),
                        lightboxCaption_text := or_empty (data_caption (galleryItems s ! k)),
                        lightbox_active := True\<rparr>)"
proof -
  have vis: "allVisibleItems (updateVisibleItems s) = vis"
    by (simp add: updateVisibleItems_def vis_def item_visible_def)
  have mem: "k \<in> set vis"
    using assms(1,2) by (simp add: vis_def)
  let ?j = "nat (indexOf vis k)"
  from indexOf_found [OF mem]
  have j: "0 \<le> indexOf vis k" "indexOf vis k < int (length vis)" "vis ! ?j = k"
    by simp_all
  have "?j < length vis" using j by linarith
  moreover have "galleryItem_click k s =
             (Normal, s\<lparr>allVisibleItems := vis, currentIndex := Num (int ?j),
                        lightboxImg_src := href (galleryItems s ! k),
                        lightboxCaption_text := or_empty (data_caption (galleryItems s ! k)),
                        lightbox_active := True\<rparr>)"
    using assms(1) j vis
    by (simp add: galleryItem_click_def openLightbox_def Let_def updateVisibleItems_def)
  ultimately show ?thesis using j(3) by blast
qed

text \<open>
  C3. Opening by a click is to put the cursor on the clicked item's position among
  the items visible at that time, so that \<open>prev\<close> and \<open>next\<close> stay among them.
  main.js does not: its lightbox works on \<open>images\<close>, the copy of all items made at
  initialisation, and a click opens at the item's position among all items. On
  the example page with the filter \<open>rooms\<close> selected (items 0 and 2 visible, item 1
  hidden), a click on item 2 sets the cursor to 2, while its position among the
  visible items is 1; and after a click on item 0, \<open>next\<close> shows \<open>buffet.jpg\<close>, the
  hidden item. The same clicks in script.js give cursor 1 and \<open>deluxe.jpg\<close>.
\<close>

theorem page_lightbox_ignores_filter:
  "map item_visible (galleryItems (run_timers (page_filterButton_click 1
       (the (initGalleryPage True demo_page))))) = [True, False, True] \<and>
   currentIndex (snd (page_galleryItem_click 2 (run_timers (page_filterButton_click 1
       (the (initGalleryPage True demo_page)))))) = Num 2 \<and>
   lightboxImg_src (snd (page_showNext (snd (page_galleryItem_click 0 (run_timers
       (page_filterButton_click 1 (the (initGalleryPage True demo_page)))))))) = ''buffet.jpg'' \<and>
   currentIndex (snd (galleryItem_click 2 (filterButton_click 1
       (the (initGallery True True demo_page))))) = Num 1 \<and>
   lightboxImg_src (snd (showNext (snd (galleryItem_click 0 (filterButton_click 1
       (the (initGallery True True demo_page))))))) = ''deluxe.jpg''"
  by (simp add: script_defs page_defs demo_defs item_visible_def upt_conv_Cons Let_def)

text \<open>
  In script.js the list is tied to the page when an item is opened: after a click on
  a visible item, \<open>next\<close> and \<open>prev\<close> wrap over the items visible at the click,
  \<open>N\<close> being their number and \<open>j\<close> the position of the clicked item among them.
\<close>

lemma visible_cursor_wraps_after_click:
  assumes "k < length (galleryItems s)" and "item_visible (galleryItems s ! k)"
  defines "vis \<equiv> filter (\<lambda>i. item_visible (galleryItems s ! i)) [0 ..< length (galleryItems s)]"
  shows "\<exists>j < length vis. vis ! j = k \<and>
           currentIndex (snd (galleryItem_click k s)) = Num (int j) \<and>
           currentIndex (snd (showNext (snd (galleryItem_click k s))))
             = Num ((int j + 1) mod int (length vis)) \<and>
           currentIndex (snd (showPrev (snd (galleryItem_click k s))))
             = Num ((int j - 1 + int (length vis)) mod int (length vis)) \<and>
           currentIndex (snd (showNext_v21 (snd (galleryItem_click_v21 k s))))
             = Num ((int j + 1) mod int (length vis)) \<and>
           currentIndex (snd (showPrev_v21 (snd (galleryItem_click_v21 k s))))
             = Num ((int j - 1 + int (length vis)) mod int (length vis))"
proof -
  from galleryItem_click_opens_clicked [OF assms(1,2)]
  obtain j where j: "j < length vis" "vis ! j = k"
    and click: "galleryItem_click k s =
             (Normal, s\<lparr>allVisibleItems := vis, currentIndex := Num (int j),
                        lightboxImg_src := href (galleryItems s ! k),
                        lightboxCaption_text := or_empty (data_caption (galleryItems s ! k)),
                        lightbox_active := True\<rparr>)"
    unfolding vis_def by blast
  let ?s' = "snd (galleryItem_click k s)"
  have st: "currentIndex ?s' = Num (int j)" "allVisibleItems ?s' = vis"
    by (simp_all add: click)
  have v21: "galleryItem_click_v21 k s = galleryItem_click k s"
    using assms(1) j
    by (simp add: galleryItem_click_v21_def galleryItem_click_def openLightbox_v21_def
        openLightbox_def updateVisibleItems_def Let_def)
  have rng: "0 \<le> int j" "int j < int (length (allVisibleItems ?s'))"
    using j(1) st(2) by simp_all
  from cursor_wraps_over_allVisibleItems [OF st(1) rng] st(2) v21 j st(1)
  show ?thesis by auto
qed

text \<open>
  C5. The cursor is to wrap over the visible items: with \<open>N\<close> of them and the cursor on
  position \<open>i\<close>, \<open>next\<close> gives \<open>(i + 1) mod N\<close> and \<open>prev\<close> gives \<open>(i - 1 + N) mod N\<close>.
  main.js wraps over all items instead. On the example page with the filter \<open>rooms\<close>
  selected, two items are visible and a click on the first opens it at cursor 0.
  Then \<open>prev\<close> gives cursor 2, not \<open>(0 - 1 + 2) mod 2 = 1\<close>, and two \<open>next\<close> give
  cursor 2, not 0. The same clicks in script.js give 1 and 0.
\<close>

theorem page_cursor_wraps_over_hidden_items:
  "map item_visible (galleryItems (run_timers (page_filterButton_click 1
       (the (initGalleryPage True demo_page))))) = [True, False, True] \<and>
   currentIndex (snd (page_galleryItem_click 0 (run_timers (page_filterButton_click 1
       (the (initGalleryPage True demo_page)))))) = Num 0 \<and>
   currentIndex (snd (page_showPrev (snd (page_galleryItem_click 0 (run_timers
       (page_filterButton_click 1 (the (initGalleryPage True demo_page)))))))) = Num 2 \<and>
   currentIndex (snd (page_showNext (snd (page_showNext (snd (page_galleryItem_click 0 (run_timers
       (page_filterButton_click 1 (the (initGalleryPage True demo_page)))))))))) = Num 2 \<and>
   currentIndex (snd (galleryItem_click 0 (filterButton_click 1
       (the (initGallery True True demo_page))))) = Num 0 \<and>
   currentIndex (snd (showPrev (snd (galleryItem_click 0 (filterButton_click 1
       (the (initGallery True True demo_page))))))) = Num 1 \<and>
   currentIndex (snd (showNext (snd (showNext (snd (galleryItem_click 0 (filterButton_click 1
       (the (initGallery True True demo_page))))))))) = Num 0"
  by (simp add: script_defs page_defs demo_defs item_visible_def upt_conv_Cons Let_def)

section \<open>Properties of the gallery filter\<close>

lemma length_fold_timer_fire: "length (fold timer_fire ts items) = length items"
  by (induction ts arbitrary: items) (simp_all add: timer_fire_def)

lemma nth_fold_timer_fire:
  "i < length items \<Longrightarrow>
     fold timer_fire ts items ! i =
       (if i \<in> set ts then (items ! i)\<lparr>style_display := DisplayBlock\<rparr> else items ! i)"
proof (induction ts arbitrary: items)
  case Nil
  then show ?case by simp
next
  case (Cons t ts)
  have len: "i < length (timer_fire t items)"
    using Cons.prems by (simp add: timer_fire_def)
  have step: "timer_fire t items ! i =
      (if i = t then (items ! i)\<lparr>style_display := DisplayBlock\<rparr> else items ! i)"
    using Cons.prems by (simp add: timer_fire_def nth_list_update)
  show ?case
    using Cons.IH [OF len] step by auto
qed

text \<open>
  In script.js the filter is exact as soon as the click handler returns: an item is
  visible if and only if the tag is \<open>all\<close> or equals its category. The items stay
  in place with their attributes; only the display style changes.
\<close>

lemma filterButton_click_exact:
  assumes "b < length (filterButtons s)"
  shows "length (galleryItems (filterButton_click b s)) = length (galleryItems s) \<and>
         (\<forall>i < length (galleryItems s).
            item_visible (galleryItems (filterButton_click b s) ! i) =
              (data_filter (filterButtons s ! b) = Some ''all'' \<or>
               data_category (galleryItems s ! i) = data_filter (filterButtons s ! b)) \<and>
            href (galleryItems (filterButton_click b s) ! i) = href (galleryItems s ! i) \<and>
            data_caption (galleryItems (filterButton_click b s) ! i) = data_caption (galleryItems s ! i) \<and>
            data_category (galleryItems (filterButton_click b s) ! i) = data_category (galleryItems s ! i))"
  using assms by (simp add: filterButton_click_def Let_def item_visible_def filter_matches_def)

text \<open>
  The handler of main.js leaves every item hidden and schedules the showing. Once
  the pending callbacks have run, an item is visible if and only if it matches the
  tag or a callback for it was still pending from an earlier click.
\<close>

lemma page_filter_after_timers:
  assumes "c < length (filterButtons p)" and "i < length (galleryItems p)"
  shows "galleryItems (run_timers (page_filterButton_click c p)) ! i =
           (galleryItems p ! i)\<lparr>style_display :=
              (if filter_matches (data_filter (filterButtons p ! c)) (galleryItems p ! i)
                  \<or> i \<in> set (timers p)
               then DisplayBlock else DisplayNone)\<rparr>"
proof -
  let ?hidden = "map (\<lambda>item. item\<lparr>style_display := DisplayNone\<rparr>) (galleryItems p)"
  let ?ts = "timers p @ filter (\<lambda>i. filter_matches (data_filter (filterButtons p ! c))
                                  (galleryItems p ! i)) [0 ..< length (galleryItems p)]"
  have run: "galleryItems (run_timers (page_filterButton_click c p)) = fold timer_fire ?ts ?hidden"
    using assms(1) by (simp add: run_timers_def page_filterButton_click_def Let_def)
  have i: "i < length ?hidden"
    using assms(2) by simp
  have mem: "(i \<in> set ?ts) =
      (filter_matches (data_filter (filterButtons p ! c)) (galleryItems p ! i) \<or> i \<in> set (timers p))"
    using assms(2) by auto
  show ?thesis
    unfolding run nth_fold_timer_fire [OF i] mem using assms(2) by simp
qed

lemma page_filterButton_click_exact:
  assumes "c < length (filterButtons p)"
  shows "length (galleryItems (page_filterButton_click c p)) = length (galleryItems p) \<and>
         length (galleryItems (run_timers (page_filterButton_click c p))) = length (galleryItems p) \<and>
         timers (run_timers (page_filterButton_click c p)) = [] \<and>
         (\<forall>i < length (galleryItems p).
            \<not> item_visible (galleryItems (page_filterButton_click c p) ! i) \<and>
            item_visible (galleryItems (run_timers (page_filterButton_click c p)) ! i) =
              (data_filter (filterButtons p ! c) = Some ''all'' \<or>
               data_category (galleryItems p ! i) = data_filter (filterButtons p ! c) \<or>
               i \<in> set (timers p)) \<and>
            href (galleryItems (run_timers (page_filterButton_click c p)) ! i) = href (galleryItems p ! i) \<and>
            data_caption (galleryItems (run_timers (page_filterButton_click c p)) ! i)
              = data_caption (galleryItems p ! i) \<and>
            data_category (galleryItems (run_timers (page_filterButton_click c p)) ! i)
              = data_category (galleryItems p ! i))"
proof -
  have p1: "length (galleryItems (page_filterButton_click c p)) = length (galleryItems p)"
    using assms by (simp add: page_filterButton_click_def Let_def)
  have p2: "length (galleryItems (run_timers (page_filterButton_click c p))) = length (galleryItems p)"
    using p1 by (simp add: run_timers_def length_fold_timer_fire)
  have p3: "timers (run_timers (page_filterButton_click c p)) = []"
    by (simp add: run_timers_def)
  have p4: "\<forall>i < length (galleryItems p). \<not> item_visible (galleryItems (page_filterButton_click c p) ! i)"
    using assms by (simp add: page_filterButton_click_def Let_def item_visible_def)
  have p5: "\<forall>i < length (galleryItems p).
            item_visible (galleryItems (run_timers (page_filterButton_click c p)) ! i) =
              (data_filter (filterButtons p ! c) = Some ''all'' \<or>
               data_category (galleryItems p ! i) = data_filter (filterButtons p ! c) \<or>
               i \<in> set (timers p)) \<and>
            href (galleryItems (run_timers (page_filterButton_click c p)) ! i) = href (galleryItems p ! i) \<and>
            data_caption (galleryItems (run_timers (page_filterButton_click c p)) ! i)
              = data_caption (galleryItems p ! i) \<and>
            data_category (galleryItems (run_timers (page_filterButton_click c p)) ! i)
              = data_category (galleryItems p ! i)"
    using assms by (simp add: page_filter_after_timers item_visible_def filter_matches_def)
  from p1 p2 p3 p4 p5 show ?thesis by simp
qed

text \<open>
  C6. After a click on the filter with tag \<open>T\<close>, the items of another category are to
  be hidden. In main.js the callbacks of an earlier click are not cancelled. On the
  example page, a click on \<open>rooms\<close> schedules the showing of items 0 and 2; a click
  on \<open>dining\<close> before these callbacks run hides everything and schedules item 1;
  then all pending callbacks run. The active filter is \<open>dining\<close>, no callback is
  left, and the two \<open>rooms\<close> items are visible. The same two clicks in script.js
  leave only the \<open>dining\<close> item visible.
\<close>

theorem stale_show_callbacks_defeat_filter:
  "timers (page_filterButton_click 1 (the (initGalleryPage True demo_page))) = [0, 2] \<and>
   map btn_active (filterButtons (run_timers (page_filterButton_click 2
      (page_filterButton_click 1 (the (initGalleryPage True demo_page))))))
     = [False, False, True] \<and>
   map data_category (galleryItems (run_timers (page_filterButton_click 2
      (page_filterButton_click 1 (the (initGalleryPage True demo_page))))))
     = [Some ''rooms'', Some ''dining'', Some ''rooms''] \<and>
   map item_visible (galleryItems (run_timers (page_filterButton_click 2
      (page_filterButton_click 1 (the (initGalleryPage True demo_page))))))
     = [True, True, True] \<and>
   timers (run_timers (page_filterButton_click 2
      (page_filterButton_click 1 (the (initGalleryPage True demo_page))))) = [] \<and>
   map item_visible (galleryItems (filterButton_click 2
      (filterButton_click 1 (the (initGallery True True demo_page)))))
     = [False, True, False]"
  by (simp add: script_defs page_defs demo_defs item_visible_def upt_conv_Cons Let_def)

section \<open>Properties of the reveal animator\<close>

lemma reveal_entry_keeps:
  "e \<in> visible_class s \<Longrightarrow> e \<in> visible_class (reveal_entry x s)"
  "e \<notin> observed s \<Longrightarrow> e \<notin> observed (reveal_entry x s)"
  "e \<in> visible_class s \<Longrightarrow> additions (reveal_entry x s) e = additions s e"
  by (auto simp add: reveal_entry_def unobserve_def classList_add_def)

lemma reveal_entry_count:
  "additions s e = 0 \<or> (additions s e = 1 \<and> e \<in> visible_class s) \<Longrightarrow>
     additions (reveal_entry x s) e = 0 \<or>
     (additions (reveal_entry x s) e = 1 \<and> e \<in> visible_class (reveal_entry x s))"
  by (auto simp add: reveal_entry_def unobserve_def classList_add_def)

lemma observerCallback_keeps:
  "e \<in> visible_class s \<Longrightarrow> e \<in> visible_class (observerCallback entries s)"
  "e \<notin> observed s \<Longrightarrow> e \<notin> observed (observerCallback entries s)"
  "e \<in> visible_class s \<Longrightarrow> additions (observerCallback entries s) e = additions s e"
  unfolding observerCallback_def
  by (induction entries arbitrary: s) (simp_all add: reveal_entry_keeps)

lemma observerCallback_count:
  "additions s e = 0 \<or> (additions s e = 1 \<and> e \<in> visible_class s) \<Longrightarrow>
     additions (observerCallback entries s) e = 0 \<or>
     (additions (observerCallback entries s) e = 1 \<and> e \<in> visible_class (observerCallback entries s))"
  unfolding observerCallback_def
proof (induction entries arbitrary: s)
  case Nil
  then show ?case by simp
next
  case (Cons x xs)
  from reveal_entry_count [OF Cons.prems, of x] Cons.IH [of "reveal_entry x s"]
  show ?case by simp
qed

lemma deliver_keeps:
  "e \<in> visible_class s \<Longrightarrow> e \<in> visible_class (deliver batches s)"
  "e \<notin> observed s \<Longrightarrow> e \<notin> observed (deliver batches s)"
  "e \<in> visible_class s \<Longrightarrow> additions (deliver batches s) e = additions s e"
  unfolding deliver_def
  by (induction batches arbitrary: s) (simp_all add: observerCallback_keeps)

lemma deliver_count:
  "additions s e = 0 \<or> (additions s e = 1 \<and> e \<in> visible_class s) \<Longrightarrow>
     additions (deliver batches s) e = 0 \<or>
     (additions (deliver batches s) e = 1 \<and> e \<in> visible_class (deliver batches s))"
  unfolding deliver_def
proof (induction batches arbitrary: s)
  case Nil
  then show ?case by simp
next
  case (Cons b bs)
  from observerCallback_count [OF Cons.prems, of b] Cons.IH [of "observerCallback b s"]
  show ?case by simp
qed

lemma deliver_append: "deliver (b1 @ b2) s = deliver b2 (deliver b1 s)"
  by (simp add: deliver_def)

lemma reveal_entry_unobserves:
  "isIntersecting x \<Longrightarrow> target x \<notin> observed (reveal_entry x s) \<and> target x \<in> visible_class (reveal_entry x s)"
  by (auto simp add: reveal_entry_def unobserve_def classList_add_def)

text \<open>
  C7. From a state in which the script has not yet added \<open>is-visible\<close> to element
  \<open>e\<close>, over every sequence of callback batches, whatever entries they hold, the
  class is added to \<open>e\<close> at most once. Once \<open>e\<close> carries the class it keeps it and
  no batch adds it again, and once \<open>e\<close> is unobserved it stays unobserved.
\<close>

theorem reveal_is_one_shot:
  assumes "additions s e = 0"
  shows "additions (deliver (earlier @ later) s) e \<le> 1 \<and>
         (e \<in> visible_class (deliver earlier s) \<longrightarrow>
            e \<in> visible_class (deliver (earlier @ later) s) \<and>
            additions (deliver (earlier @ later) s) e = additions (deliver earlier s) e) \<and>
         (e \<notin> observed (deliver earlier s) \<longrightarrow> e \<notin> observed (deliver (earlier @ later) s))"
proof -
  from assms deliver_count [of s e "earlier @ later"]
  have "additions (deliver (earlier @ later) s) e \<le> 1" by auto
  then show ?thesis
    by (simp add: deliver_append deliver_keeps)
qed

text \<open>
  Two observed elements; element 0 enters the viewport, leaves it and is reported
  entering once more: the class was added once, and the element stays unobserved.
\<close>

theorem reveal_is_one_shot_witness:
  "additions (deliver ([[\<lparr>target = 0, isIntersecting = True\<rparr>]] @
                       [[\<lparr>target = 0, isIntersecting = False\<rparr>],
                        [\<lparr>target = 0, isIntersecting = True\<rparr>, \<lparr>target = 1, isIntersecting = True\<rparr>]])
      (initScrollObserver [0, 1] \<lparr>visible_class = {}, observed = {}, additions = (\<lambda>_. 0)\<rparr>)) 0 = 1 \<and>
   0 \<notin> observed (deliver ([[\<lparr>target = 0, isIntersecting = True\<rparr>]] @
                       [[\<lparr>target = 0, isIntersecting = False\<rparr>],
                        [\<lparr>target = 0, isIntersecting = True\<rparr>, \<lparr>target = 1, isIntersecting = True\<rparr>]])
      (initScrollObserver [0, 1] \<lparr>visible_class = {}, observed = {}, additions = (\<lambda>_. 0)\<rparr>))"
proof -
  let ?s = "initScrollObserver [0, 1] \<lparr>visible_class = {}, observed = {}, additions = (\<lambda>_. 0)\<rparr>"
  let ?b1 = "[[\<lparr>target = 0::nat, isIntersecting = True\<rparr>]]"
  let ?b2 = "[[\<lparr>target = 0::nat, isIntersecting = False\<rparr>],
              [\<lparr>target = 0, isIntersecting = True\<rparr>, \<lparr>target = 1, isIntersecting = True\<rparr>]]"
  have h: "additions ?s 0 = 0"
    by (simp add: initScrollObserver_def observe_def)
  have m: "0 \<in> visible_class (deliver ?b1 ?s)" "0 \<notin> observed (deliver ?b1 ?s)"
    "additions (deliver ?b1 ?s) 0 = 1"
    by (simp_all add: deliver_def observerCallback_def reveal_entry_def classList_add_def
        unobserve_def initScrollObserver_def observe_def)
  from reveal_is_one_shot [OF h, of ?b1 ?b2] m show ?thesis by simp
qed

section \<open>Properties of the scroll-spy\<close>

lemma remove_add_links_eq: "remove_add_links h navLinks = toggle_links h navLinks"
  by (simp add: remove_add_links_def toggle_links_def Let_def)

lemma navObserver_entry_v21_eq: "navObserver_entry_v21 = navObserver_entry"
  by (simp add: fun_eq_iff navObserver_entry_v21_def navObserver_entry_def remove_add_links_eq)

lemma toggle_links_absorb: "toggle_links h (toggle_links h' navLinks) = toggle_links h navLinks"
  by (simp add: toggle_links_def)

lemma toggle_links_after_entries:
  assumes "\<And>x ls. step x ls = (if isIntersecting x then toggle_links (hs (target x)) ls else ls)"
  shows "toggle_links h (fold step entries navLinks) = toggle_links h navLinks"
proof (induction entries arbitrary: navLinks)
  case Nil
  show ?case by simp
next
  case (Cons x xs)
  have "toggle_links h (fold step (x # xs) navLinks) = toggle_links h (step x navLinks)"
    using Cons.IH by simp
  also have "\<dots> = toggle_links h navLinks"
    by (simp add: assms toggle_links_absorb)
  finally show ?case .
qed

lemma no_intersecting_entries:
  assumes "\<And>x ls. step x ls = (if isIntersecting x then toggle_links (hs (target x)) ls else ls)"
    and "\<forall>x \<in> set entries. \<not> isIntersecting x"
  shows "fold step entries navLinks = navLinks"
  using assms(2) by (induction entries arbitrary: navLinks) (simp_all add: assms(1))

lemma last_intersecting_entry:
  assumes step: "\<And>x ls. step x ls = (if isIntersecting x then toggle_links (hs (target x)) ls else ls)"
    and "isIntersecting e" and "\<forall>x \<in> set after. \<not> isIntersecting x"
  shows "fold step (before @ e # after) navLinks = toggle_links (hs (target e)) navLinks"
proof -
  have "fold step (before @ e # after) navLinks = fold step after (step e (fold step before navLinks))"
    by simp
  also have "\<dots> = step e (fold step before navLinks)"
    using no_intersecting_entries [of step hs after, OF step assms(3)] by simp
  also have "\<dots> = toggle_links (hs (target e)) (fold step before navLinks)"
    using assms(2) by (simp add: step)
  also have "\<dots> = toggle_links (hs (target e)) navLinks"
    using toggle_links_after_entries [of step hs, OF step] by simp
  finally show ?thesis .
qed

lemma toggle_links_only:
  assumes "k < length navLinks" and "link_href (navLinks ! k) = Some h"
    and "distinct (map link_href navLinks)"
  shows "length (toggle_links h navLinks) = length navLinks"
    and "map link_href (toggle_links h navLinks) = map link_href navLinks"
    and "\<forall>j < length navLinks. link_active (toggle_links h navLinks ! j) = (j = k)"
    and "length (filter link_active (toggle_links h navLinks)) = 1"
proof -
  show "length (toggle_links h navLinks) = length navLinks"
    by (simp add: toggle_links_def)
  show "map link_href (toggle_links h navLinks) = map link_href navLinks"
    by (simp add: toggle_links_def)
  show "\<forall>j < length navLinks. link_active (toggle_links h navLinks ! j) = (j = k)"
  proof (intro allI impI)
    fix j assume j: "j < length navLinks"
    have "(link_href (navLinks ! j) = Some h) = (map link_href navLinks ! j = map link_href navLinks ! k)"
      using j assms(1,2) by simp
    also have "\<dots> = (j = k)"
      using nth_eq_iff_index_eq [OF assms(3), of j k] assms(1) j by simp
    finally show "link_active (toggle_links h navLinks ! j) = (j = k)"
      using j by (simp add: toggle_links_def)
  qed
  have "filter link_active (toggle_links h navLinks) =
          toggle_links h (filter (\<lambda>l. link_href l = Some h) navLinks)"
    by (simp add: toggle_links_def filter_map comp_def)
  then have "length (filter link_active (toggle_links h navLinks)) =
          length (filter (\<lambda>y. y = Some h) (map link_href navLinks))"
    by (simp add: toggle_links_def filter_map comp_def)
  also have "\<dots> = card ({y. y = Some h} \<inter> set (map link_href navLinks))"
    using assms(3) by (rule distinct_length_filter)
  also have "{y. y = Some h} \<inter> set (map link_href navLinks) = {Some h}"
    using assms(1,2) by (auto simp add: in_set_conv_nth intro!: image_eqI [where x = "navLinks ! k"])
  finally show "length (filter link_active (toggle_links h navLinks)) = 1"
    by simp
qed

lemma toggle_links_at_most_one:
  assumes "distinct (map link_href navLinks)"
  shows "length (filter link_active (toggle_links h navLinks)) \<le> 1"
proof -
  have "length (filter link_active (toggle_links h navLinks)) =
          length (filter (\<lambda>y. y = Some h) (map link_href navLinks))"
    by (simp add: toggle_links_def filter_map comp_def)
  also have "\<dots> = card ({y. y = Some h} \<inter> set (map link_href navLinks))"
    using assms by (rule distinct_length_filter)
  also have "\<dots> \<le> card {Some h}"
    by (intro card_mono) auto
  finally show ?thesis by simp
qed

lemma at_most_one_active_kept:
  assumes step: "\<And>x ls. step x ls = (if isIntersecting x then toggle_links (hs (target x)) ls else ls)"
    and "distinct (map link_href navLinks)" and "length (filter link_active navLinks) \<le> 1"
  shows "length (filter link_active (fold step entries navLinks)) \<le> 1"
  using assms(2,3)
proof (induction entries arbitrary: navLinks)
  case Nil
  then show ?case by simp
next
  case (Cons x xs)
  have d: "distinct (map link_href (step x navLinks))"
    using Cons.prems(1) by (simp add: step toggle_links_def comp_def)
  have a: "length (filter link_active (step x navLinks)) \<le> 1"
    using Cons.prems toggle_links_at_most_one [of navLinks] by (simp add: step)
  from Cons.IH [OF d a] show ?case by simp
qed

text \<open>
  C8. Let the links have distinct \<open>href\<close>s and let link \<open>k\<close> point to the section
  with id \<open>sid\<close>. After a callback whose last intersecting entry is that section,
  link \<open>k\<close> is active and no other link is, so exactly one link is active; the
  \<open>href\<close>s are untouched. The three versions of the callback agree. Moreover no
  batch whatsoever takes the links from at most one active link to more than one.
\<close>

theorem scroll_spy_last_intersecting_wins:
  assumes "entries = before @ e # after"
    and "isIntersecting e" and "target e = Some sid"
    and "\<forall>x \<in> set after. \<not> isIntersecting x"
    and "k < length navLinks" and "link_href (navLinks ! k) = Some (CHR ''#'' # sid)"
    and "distinct (map link_href navLinks)"
  shows "(\<forall>j < length navLinks. link_active (navObserver_callback entries navLinks ! j) = (j = k)) \<and>
         length (filter link_active (navObserver_callback entries navLinks)) = 1 \<and>
         map link_href (navObserver_callback entries navLinks) = map link_href navLinks \<and>
         navObserver_callback_v21 entries navLinks = navObserver_callback entries navLinks \<and>
         policyNavObserver_callback entries navLinks = navObserver_callback entries navLinks \<and>
         (length (filter link_active navLinks) \<le> 1 \<longrightarrow>
            length (filter link_active (navObserver_callback batch navLinks)) \<le> 1 \<and>
            length (filter link_active (navObserver_callback_v21 batch navLinks)) \<le> 1 \<and>
            length (filter link_active (policyNavObserver_callback batch navLinks)) \<le> 1)"
proof -
  let ?h = "CHR ''#'' # sid"
  have a: "navObserver_callback entries navLinks = toggle_links ?h navLinks"
    unfolding navObserver_callback_def assms(1)
    using last_intersecting_entry [of navObserver_entry hash_getAttribute e after before navLinks]
      assms(2,3,4)
    by (simp add: navObserver_entry_def hash_getAttribute_def)
  have b: "policyNavObserver_callback entries navLinks = toggle_links ?h navLinks"
    unfolding policyNavObserver_callback_def assms(1)
    using last_intersecting_entry [of policyNavObserver_entry hash_id e after before navLinks]
      assms(2,3,4)
    by (simp add: policyNavObserver_entry_def hash_id_def)
  have c: "navObserver_callback_v21 es navLinks = navObserver_callback es navLinks" for es
    by (simp add: navObserver_callback_v21_def navObserver_callback_def navObserver_entry_v21_eq)
  have d: "length (filter link_active (navObserver_callback batch navLinks)) \<le> 1"
    if "length (filter link_active navLinks) \<le> 1"
    unfolding navObserver_callback_def
    using at_most_one_active_kept [of navObserver_entry hash_getAttribute navLinks batch] assms(7) that
    by (simp add: navObserver_entry_def)
  have f: "length (filter link_active (policyNavObserver_callback batch navLinks)) \<le> 1"
    if "length (filter link_active navLinks) \<le> 1"
    unfolding policyNavObserver_callback_def
    using at_most_one_active_kept [of policyNavObserver_entry hash_id navLinks batch] assms(7) that
    by (simp add: policyNavObserver_entry_def)
  from toggle_links_only [OF assms(5,6,7)] a b c d f show ?thesis
    by simp
qed

text \<open>In the example batch \<open>beaches\<close> and \<open>markets\<close> intersect, in this order: the link to
  \<open>markets\<close> ends up active, alone.\<close>

theorem scroll_spy_last_intersecting_wins_witness:
  "link_active (navObserver_callback demo_batch demo_links ! 2) \<and>
   \<not> link_active (navObserver_callback demo_batch demo_links ! 0) \<and>
   \<not> link_active (navObserver_callback demo_batch demo_links ! 1) \<and>
   length (filter link_active (policyNavObserver_callback demo_batch demo_links)) \<le> 1"
proof -
  let ?e = "\<lparr>target = Some ''markets'', isIntersecting = True\<rparr>"
  have h: "demo_batch = [\<lparr>target = Some ''beaches'', isIntersecting = True\<rparr>] @ ?e #
                          [\<lparr>target = Some ''temples'', isIntersecting = False\<rparr>]"
    "isIntersecting ?e" "target ?e = Some ''markets''"
    "\<forall>x \<in> set [\<lparr>target = Some ''temples'', isIntersecting = False\<rparr>]. \<not> isIntersecting x"
    "2 < length demo_links" "link_href (demo_links ! 2) = Some (CHR ''#'' # ''markets'')"
    "distinct (map link_href demo_links)"
    by (simp_all add: demo_batch_def demo_links_def)
  have i: "length (filter link_active demo_links) \<le> 1" "length demo_links = 3"
    by (simp_all add: demo_links_def)
  from scroll_spy_last_intersecting_wins [OF h, of demo_batch] i
  show ?thesis by simp
qed

end
